theory Spec2Isabelle
  imports Main "HOL-Library.Word" "HOL-Library.AList"
begin

section \<open>Go values\<close>

text \<open>
  An \<open>error\<close> is represented by the text its \<open>Error()\<close> method returns. Go's \<open>int\<close> is a
  mathematical integer here (the program does no arithmetic on ports, it only compares
  them with zero, prints them and converts them to \<open>int32\<close>); \<open>int32\<close> is a 32-bit word and
  the conversion \<open>int32(x)\<close> keeps the low 32 bits.

  Slices that the program only ranges over and appends to are lists. Slices that reach
  \<open>reflect.DeepEqual\<close> keep Go's distinction between the nil slice and an empty one, which
  \<open>DeepEqual\<close> tells apart: they are \<open>'a slice\<close>, with \<open>None\<close> for nil. On such values
  \<open>reflect.DeepEqual\<close> is HOL equality.
\<close>

type_synonym error = string

type_synonym int32 = "32 word"

type_synonym 'a slice = "'a list option"

definition elems :: "'a slice \<Rightarrow> 'a list" where
  "elems s = (case s of None \<Rightarrow> [] | Some xs \<Rightarrow> xs)"

definition len_slice :: "'a slice \<Rightarrow> nat" where
  "len_slice s = length (elems s)"

definition append_slice :: "'a slice \<Rightarrow> 'a \<Rightarrow> 'a slice" where
  "append_slice s x = Some (elems s @ [x])"

definition int32_of :: "int \<Rightarrow> int32" where
  "int32_of x = word_of_int x"

text \<open>\<open>strconv.Itoa\<close>: the decimal digits of an integer, with a minus sign when negative.\<close>

definition digitChar :: "nat \<Rightarrow> char" where
  "digitChar d = ''0123456789'' ! d"

fun decimal :: "nat \<Rightarrow> string" where
  "decimal n = (if n < 10 then [digitChar n] else decimal (n div 10) @ [digitChar (n mod 10)])"

declare decimal.simps [simp del]

definition Itoa :: "int \<Rightarrow> string" where
  "Itoa i = (if i < 0 then CHR ''-'' # decimal (nat (- i)) else decimal (nat i))"

section \<open>The registry's types and the Service Model\<close>

text \<open>
  Of the Consul client's \<open>api.ServiceEntry\<close> the program reads \<open>entry.Service.Address\<close> and
  \<open>entry.Service.Port\<close>. The \<open>Service\<close> pointer of an entry of a successful health query is
  taken to be set, as the program takes it (it reads through it without a check).
\<close>

record AgentService =
  as_Address :: string
  as_Port :: int

record ServiceEntry =
  se_Service :: AgentService

record Service =
  Name :: string
  Port :: int
  Nodes :: "string list"

section \<open>Building one Service Model (reconcile, the loop over the healthy instances)\<close>

text \<open>
  The body of the loop \<open>for _, entry := range servicesData\<close>: the address is appended to
  \<open>nodes\<close>, and the port is taken from the entry while \<open>svc.Port\<close> is still zero.
\<close>

fun rangeServicesData :: "ServiceEntry list \<Rightarrow> Service \<Rightarrow> string list \<Rightarrow> Service \<times> string list" where
  "rangeServicesData [] svc nodes = (svc, nodes)"
| "rangeServicesData (entry # rest) svc nodes =
     rangeServicesData rest
       (if Port svc = 0 then svc\<lparr>Port := as_Port (se_Service entry)\<rparr> else svc)
       (nodes @ [as_Address (se_Service entry)])"

text \<open>
  \<open>svc := Service{Name: name}\<close>, the loop, then \<open>svc.Nodes = nodes\<close>.
\<close>

definition buildService :: "string \<Rightarrow> ServiceEntry list \<Rightarrow> Service" where
  "buildService name servicesData =
     (case rangeServicesData servicesData \<lparr>Name = name, Port = 0, Nodes = []\<rparr> [] of
        (svc, nodes) \<Rightarrow> svc\<lparr>Nodes := nodes\<rparr>)"

section \<open>The target cluster's resource types\<close>

text \<open>
  The Kubernetes types the program builds and compares, with the fields it sets and the
  fields \<open>reflect.DeepEqual\<close> reaches below \<open>Spec.Ports\<close> and \<open>Subsets\<close>. Pointers
  below those two are options. The further metadata of the Kubernetes objects is
  never read by the program.
\<close>

datatype intstr_Type = intstr_Int | intstr_String

record IntOrString =
  ios_Type :: intstr_Type
  IntVal :: int32
  StrVal :: string

text \<open>\<open>intstr.FromInt\<close> of the Kubernetes library.\<close>

definition FromInt :: "int \<Rightarrow> IntOrString" where
  "FromInt val = \<lparr>ios_Type = intstr_Int, IntVal = int32_of val, StrVal = []\<rparr>"

record ServicePort =
  sp_Name :: string
  sp_Protocol :: string
  sp_Port :: int32
  TargetPort :: IntOrString
  NodePort :: int32

record ObjectMeta =
  meta_Name :: string
  meta_Namespace :: string
  Labels :: "string \<rightharpoonup> string"

definition GetName :: "ObjectMeta \<Rightarrow> string" where
  "GetName m = meta_Name m"

definition GetNamespace :: "ObjectMeta \<Rightarrow> string" where
  "GetNamespace m = meta_Namespace m"

record ServiceSpec =
  Ports :: "ServicePort slice"
  spec_Type :: string
  ClusterIP :: string

record v1_Service =
  svc_ObjectMeta :: ObjectMeta
  Spec :: ServiceSpec

record ObjectReference =
  ref_Kind :: string
  ref_Namespace :: string
  ref_Name :: string
  ref_UID :: string
  ref_APIVersion :: string
  ref_ResourceVersion :: string
  ref_FieldPath :: string

record EndpointAddress =
  IP :: string
  Hostname :: string
  NodeName :: "string option"
  TargetRef :: "ObjectReference option"

record EndpointPort =
  epp_Name :: string
  epp_Port :: int32
  epp_Protocol :: string

record EndpointSubset =
  Addresses :: "EndpointAddress slice"
  NotReadyAddresses :: "EndpointAddress slice"
  es_Ports :: "EndpointPort slice"

record v1_Endpoints =
  ep_ObjectMeta :: ObjectMeta
  Subsets :: "EndpointSubset slice"

text \<open>\<open>Endpoints\<close> of package consul: a \<open>v1.Endpoints\<close> and the upstream name.\<close>

record Endpoints =
  endpoints :: v1_Endpoints
  upstreamName :: string

definition ServiceTypeClusterIP :: string where
  "ServiceTypeClusterIP = ''ClusterIP''"

definition ProtocolTCP :: string where
  "ProtocolTCP = ''TCP''"

section \<open>The projector (kubeServices, kubeEndpoints)\<close>

text \<open>
  Package \<open>translator\<close> (\<open>BuildDiscoveredName\<close>, \<open>AddGimbalLabels\<close>) is not among the
  sources, and \<open>strings.ToLower\<close> is Go's; the projector takes the three functions as
  parameters, so what is proved of it holds for every way of deriving names and labels.
\<close>

record externals =
  BuildDiscoveredName :: "string \<Rightarrow> string \<Rightarrow> string"
  AddGimbalLabels :: "string \<Rightarrow> string \<Rightarrow> (string \<rightharpoonup> string) \<Rightarrow> (string \<rightharpoonup> string)"
  ToLower :: "string \<Rightarrow> string"

definition consulLabels :: "Service \<Rightarrow> (string \<rightharpoonup> string)" where
  "consulLabels service = Map.empty"

definition serviceNameOriginal :: "externals \<Rightarrow> Service \<Rightarrow> string" where
  "serviceNameOriginal ext service = ToLower ext (Name service)"

definition serviceName :: "externals \<Rightarrow> Service \<Rightarrow> string" where
  "serviceName ext service = ToLower ext (Name service)"

definition portName :: "int \<Rightarrow> string" where
  "portName port = (let p = Itoa port in ''port-'' @ p)"

text \<open>The \<open>v1.Service\<close> literal in the body of the loop of \<open>kubeServices\<close>.\<close>

definition kubeService :: "externals \<Rightarrow> string \<Rightarrow> string \<Rightarrow> Service \<Rightarrow> v1_Service" where
  "kubeService ext backendName tenantName service =
     \<lparr>svc_ObjectMeta =
        \<lparr>meta_Name = BuildDiscoveredName ext backendName (serviceName ext service),
         meta_Namespace = tenantName,
         Labels = AddGimbalLabels ext backendName (serviceName ext service) (consulLabels service)\<rparr>,
      Spec =
        \<lparr>Ports = Some [\<lparr>sp_Name = portName (Port service),
                         sp_Protocol = ProtocolTCP,
                         sp_Port = int32_of (Port service),
                         TargetPort = FromInt (Port service),
                         NodePort = 0\<rparr>],
         spec_Type = ServiceTypeClusterIP,
         ClusterIP = ''None''\<rparr>\<rparr>"

fun rangeKubeServices ::
  "externals \<Rightarrow> string \<Rightarrow> string \<Rightarrow> Service list \<Rightarrow> v1_Service list \<Rightarrow> v1_Service list" where
  "rangeKubeServices ext backendName tenantName [] svcs = svcs"
| "rangeKubeServices ext backendName tenantName (service # rest) svcs =
     rangeKubeServices ext backendName tenantName rest
       (svcs @ [kubeService ext backendName tenantName service])"

definition kubeServices :: "externals \<Rightarrow> string \<Rightarrow> string \<Rightarrow> Service list \<Rightarrow> v1_Service list" where
  "kubeServices ext backendName tenantName services =
     rangeKubeServices ext backendName tenantName services []"

text \<open>
  The map \<open>subsets\<close> of \<open>kubeEndpoints\<close> is an association list with one entry per key.
  Go leaves the order in which a map is ranged over open; the model ranges in the order
  of insertion, and the map never holds more than the one key \<open>service.Name\<close>.
  \<open>subsets[k]\<close> of a missing key is the zero value of \<open>v1.EndpointSubset\<close>.
\<close>

definition zeroEndpointSubset :: EndpointSubset where
  "zeroEndpointSubset = \<lparr>Addresses = None, NotReadyAddresses = None, es_Ports = None\<rparr>"

definition index_subsets :: "(string \<times> EndpointSubset) list \<Rightarrow> string \<Rightarrow> EndpointSubset" where
  "index_subsets subsets k = (case map_of subsets k of None \<Rightarrow> zeroEndpointSubset | Some s \<Rightarrow> s)"

fun rangeNodes ::
  "Service \<Rightarrow> string list \<Rightarrow> (string \<times> EndpointSubset) list \<Rightarrow> (string \<times> EndpointSubset) list" where
  "rangeNodes service [] subsets = subsets"
| "rangeNodes service (node # rest) subsets =
     (let s = index_subsets subsets (Name service);
          s = (if len_slice (es_Ports s) = 0
               then s\<lparr>es_Ports := append_slice (es_Ports s)
                        \<lparr>epp_Name = portName (Port service),
                         epp_Port = int32_of (Port service),
                         epp_Protocol = ProtocolTCP\<rparr>\<rparr>
               else s);
          s = s\<lparr>Addresses := append_slice (Addresses s)
                   \<lparr>IP = node, Hostname = [], NodeName = None, TargetRef = None\<rparr>\<rparr>
      in rangeNodes service rest (AList.update (Name service) s subsets))"

fun rangeSubsets :: "(string \<times> EndpointSubset) list \<Rightarrow> v1_Endpoints \<Rightarrow> v1_Endpoints" where
  "rangeSubsets [] ep = ep"
| "rangeSubsets ((k, s) # rest) ep = rangeSubsets rest (ep\<lparr>Subsets := append_slice (Subsets ep) s\<rparr>)"

text \<open>The body of the loop of \<open>kubeEndpoints\<close>, for one service.\<close>

definition kubeEndpoint :: "externals \<Rightarrow> string \<Rightarrow> string \<Rightarrow> Service \<Rightarrow> Endpoints" where
  "kubeEndpoint ext backendName tenantName service =
     (let ep = \<lparr>ep_ObjectMeta =
                  \<lparr>meta_Name = BuildDiscoveredName ext backendName (serviceName ext service),
                   meta_Namespace = tenantName,
                   Labels = AddGimbalLabels ext backendName (serviceName ext service) (consulLabels service)\<rparr>,
                Subsets = None\<rparr>;
          subsets = rangeNodes service (Nodes service) [];
          ep = rangeSubsets subsets ep
      in \<lparr>endpoints = ep, upstreamName = serviceNameOriginal ext service\<rparr>)"

fun rangeKubeEndpoints ::
  "externals \<Rightarrow> string \<Rightarrow> string \<Rightarrow> Service list \<Rightarrow> Endpoints list \<Rightarrow> Endpoints list" where
  "rangeKubeEndpoints ext backendName tenantName [] eps = eps"
| "rangeKubeEndpoints ext backendName tenantName (service # rest) eps =
     rangeKubeEndpoints ext backendName tenantName rest
       (eps @ [kubeEndpoint ext backendName tenantName service])"

definition kubeEndpoints :: "externals \<Rightarrow> string \<Rightarrow> string \<Rightarrow> Service list \<Rightarrow> Endpoints list" where
  "kubeEndpoints ext backendName tenantName services =
     rangeKubeEndpoints ext backendName tenantName services []"

section \<open>The differ (diff.go)\<close>

definition serviceEquals :: "v1_Service \<Rightarrow> v1_Service \<Rightarrow> bool" where
  "serviceEquals o1 o2 \<longleftrightarrow>
     GetName (svc_ObjectMeta o1) = GetName (svc_ObjectMeta o2) \<and>
     GetNamespace (svc_ObjectMeta o1) = GetNamespace (svc_ObjectMeta o2)"

definition serviceEqualsDetail :: "v1_Service \<Rightarrow> v1_Service \<Rightarrow> bool" where
  "serviceEqualsDetail o1 o2 \<longleftrightarrow>
     GetName (svc_ObjectMeta o1) = GetName (svc_ObjectMeta o2) \<and>
     GetNamespace (svc_ObjectMeta o1) = GetNamespace (svc_ObjectMeta o2) \<and>
     Ports (Spec o1) = Ports (Spec o2)"

definition endpointEquals :: "Endpoints \<Rightarrow> Endpoints \<Rightarrow> bool" where
  "endpointEquals o1 o2 \<longleftrightarrow>
     GetName (ep_ObjectMeta (endpoints o1)) = GetName (ep_ObjectMeta (endpoints o2)) \<and>
     GetNamespace (ep_ObjectMeta (endpoints o1)) = GetNamespace (ep_ObjectMeta (endpoints o2))"

definition endpointEqualsDetail :: "Endpoints \<Rightarrow> Endpoints \<Rightarrow> bool" where
  "endpointEqualsDetail o1 o2 \<longleftrightarrow>
     GetName (ep_ObjectMeta (endpoints o1)) = GetName (ep_ObjectMeta (endpoints o2)) \<and>
     GetNamespace (ep_ObjectMeta (endpoints o1)) = GetNamespace (ep_ObjectMeta (endpoints o2)) \<and>
     Subsets (endpoints o1) = Subsets (endpoints o2)"

fun containsSvc :: "v1_Service \<Rightarrow> v1_Service list \<Rightarrow> bool" where
  "containsSvc x [] = False"
| "containsSvc x (s # xs) = (if serviceEquals x s then True else containsSvc x xs)"

fun containsEndpoint :: "Endpoints \<Rightarrow> Endpoints list \<Rightarrow> bool" where
  "containsEndpoint x [] = False"
| "containsEndpoint x (e # xs) = (if endpointEquals x e then True else containsEndpoint x xs)"

text \<open>
  The loops of \<open>diffServices\<close>, each with the slice it appends to. The inner loop of the
  third one stops at the first desired entry of the same identity (\<open>break\<close>).
\<close>

fun rangeDelSvcs :: "v1_Service list \<Rightarrow> v1_Service list \<Rightarrow> v1_Service list \<Rightarrow> v1_Service list" where
  "rangeDelSvcs desired [] del = del"
| "rangeDelSvcs desired (currentSvc # rest) del =
     rangeDelSvcs desired rest
       (if \<not> containsSvc currentSvc desired then del @ [currentSvc] else del)"

fun rangeAddSvcs :: "v1_Service list \<Rightarrow> v1_Service list \<Rightarrow> v1_Service list \<Rightarrow> v1_Service list" where
  "rangeAddSvcs current [] add = add"
| "rangeAddSvcs current (desiredSvc # rest) add =
     rangeAddSvcs current rest
       (if \<not> containsSvc desiredSvc current then add @ [desiredSvc] else add)"

fun matchDesiredSvc :: "v1_Service \<Rightarrow> v1_Service list \<Rightarrow> v1_Service list \<Rightarrow> v1_Service list" where
  "matchDesiredSvc currentSvc [] update = update"
| "matchDesiredSvc currentSvc (desiredSvc # rest) update =
     (if serviceEquals currentSvc desiredSvc
      then (if \<not> serviceEqualsDetail currentSvc desiredSvc then update @ [desiredSvc] else update)
      else matchDesiredSvc currentSvc rest update)"

fun rangeUpdateSvcs :: "v1_Service list \<Rightarrow> v1_Service list \<Rightarrow> v1_Service list \<Rightarrow> v1_Service list" where
  "rangeUpdateSvcs desired [] update = update"
| "rangeUpdateSvcs desired (currentSvc # rest) update =
     rangeUpdateSvcs desired rest (matchDesiredSvc currentSvc desired update)"

definition diffServices ::
  "v1_Service list \<Rightarrow> v1_Service list \<Rightarrow> v1_Service list \<times> v1_Service list \<times> v1_Service list" where
  "diffServices desired current =
     (let del = rangeDelSvcs desired current [];
          add = rangeAddSvcs current desired [];
          update = rangeUpdateSvcs desired current []
      in (add, update, del))"

fun rangeDelEps :: "Endpoints list \<Rightarrow> Endpoints list \<Rightarrow> Endpoints list \<Rightarrow> Endpoints list" where
  "rangeDelEps desired [] del = del"
| "rangeDelEps desired (currentEp # rest) del =
     rangeDelEps desired rest
       (if \<not> containsEndpoint currentEp desired then del @ [currentEp] else del)"

fun rangeAddEps :: "Endpoints list \<Rightarrow> Endpoints list \<Rightarrow> Endpoints list \<Rightarrow> Endpoints list" where
  "rangeAddEps current [] add = add"
| "rangeAddEps current (desiredEp # rest) add =
     rangeAddEps current rest
       (if \<not> containsEndpoint desiredEp current then add @ [desiredEp] else add)"

fun matchDesiredEp :: "Endpoints \<Rightarrow> Endpoints list \<Rightarrow> Endpoints list \<Rightarrow> Endpoints list" where
  "matchDesiredEp currentEp [] update = update"
| "matchDesiredEp currentEp (desiredEp # rest) update =
     (if endpointEquals currentEp desiredEp
      then (if \<not> endpointEqualsDetail currentEp desiredEp then update @ [desiredEp] else update)
      else matchDesiredEp currentEp rest update)"

fun rangeUpdateEps :: "Endpoints list \<Rightarrow> Endpoints list \<Rightarrow> Endpoints list \<Rightarrow> Endpoints list" where
  "rangeUpdateEps desired [] update = update"
| "rangeUpdateEps desired (currentEp # rest) update =
     rangeUpdateEps desired rest (matchDesiredEp currentEp desired update)"

definition diffEndpoints ::
  "Endpoints list \<Rightarrow> Endpoints list \<Rightarrow> Endpoints list \<times> Endpoints list \<times> Endpoints list" where
  "diffEndpoints desired current =
     (let del = rangeDelEps desired current [];
          add = rangeAddEps current desired [];
          update = rangeUpdateEps desired current []
      in (add, update, del))"

subsection \<open>The classification, stated on identities\<close>

text \<open>
  The identity of a resource is its name and namespace; its detail is the port list of
  a Service and the subset list of an Endpoints. \<open>firstMatchUpdates\<close> states what the
  third loop of the differ computes: for each observed entry in order, the first desired
  entry of the same identity, when its detail differs from the observed entry's.
\<close>

definition identitySvc :: "v1_Service \<Rightarrow> string \<times> string" where
  "identitySvc s = (meta_Name (svc_ObjectMeta s), meta_Namespace (svc_ObjectMeta s))"

definition identityEp :: "Endpoints \<Rightarrow> string \<times> string" where
  "identityEp e = (meta_Name (ep_ObjectMeta (endpoints e)), meta_Namespace (ep_ObjectMeta (endpoints e)))"

definition detailSvc :: "v1_Service \<Rightarrow> ServicePort slice" where
  "detailSvc s = Ports (Spec s)"

definition detailEp :: "Endpoints \<Rightarrow> EndpointSubset slice" where
  "detailEp e = Subsets (endpoints e)"

definition firstMatch :: "('a \<Rightarrow> 'k) \<Rightarrow> ('a \<Rightarrow> 'd) \<Rightarrow> 'a list \<Rightarrow> 'a \<Rightarrow> 'a list" where
  "firstMatch ident detail desired c =
     (case find (\<lambda>d. ident c = ident d) desired of
        None \<Rightarrow> []
      | Some d \<Rightarrow> if detail c = detail d then [] else [d])"

definition firstMatchUpdates :: "('a \<Rightarrow> 'k) \<Rightarrow> ('a \<Rightarrow> 'd) \<Rightarrow> 'a list \<Rightarrow> 'a list \<Rightarrow> 'a list" where
  "firstMatchUpdates ident detail desired current =
     concat (map (firstMatch ident detail desired) current)"

text \<open>
  The identities left out as unchanged: those of a desired entry that has an observed
  entry of the same identity and the same detail. \<open>outcomes\<close> counts in how many of the
  four outcomes an identity lies.
\<close>

definition unchanged :: "('a \<Rightarrow> 'k) \<Rightarrow> ('a \<Rightarrow> 'd) \<Rightarrow> 'a list \<Rightarrow> 'a list \<Rightarrow> 'k set" where
  "unchanged ident detail desired current =
     ident ` {d \<in> set desired. \<exists>c\<in>set current. ident c = ident d \<and> detail c = detail d}"

definition outcomes :: "'k set \<Rightarrow> 'k set \<Rightarrow> 'k set \<Rightarrow> 'k set \<Rightarrow> 'k \<Rightarrow> nat" where
  "outcomes A U D N k =
     (if k \<in> A then 1 else 0) + (if k \<in> U then 1 else 0) +
     (if k \<in> D then 1 else 0) + (if k \<in> N then 1 else 0)"

section \<open>One reconciliation cycle (reconcile)\<close>

text \<open>
  The collaborators of a cycle are the registry client, the target cluster's client, the
  logger, the metrics and the queue of the convergence executor. What the clients answer
  in one cycle is the input of the model; the calls to the logger, the metrics and the
  queue are its output, in the order in which the program makes them.

  \<open>Catalog().Services\<close> answers a Go map from names to tag lists; the program ranges over
  it in an order Go leaves open, so the answer is given as the list of its pairs in the
  order of this cycle's iteration. The two \<open>List\<close> calls return a pointer and an error;
  the program reads the pointer also after an error, so both are kept, \<open>None\<close> being the
  nil pointer.
\<close>

record Reconciler =
  backendName :: string
  tagFilter :: string
  namespace :: string

record ServiceList =
  sl_Items :: "v1_Service list"

record EndpointsList =
  el_Items :: "v1_Endpoints list"

record responses =
  CatalogServices :: "error + (string \<times> string list) list"
  HealthService :: "string \<Rightarrow> error + ServiceEntry list"
  ListServices :: "ServiceList option \<times> error option"
  ListEndpoints :: "EndpointsList option \<times> error option"

datatype action =
    AddServiceAction v1_Service
  | UpdateServiceAction v1_Service
  | DeleteServiceAction v1_Service
  | AddEndpointsAction v1_Endpoints string
  | UpdateEndpointsAction v1_Endpoints string
  | DeleteEndpointsAction v1_Endpoints string

text \<open>
  A log line is its format and the arguments; the duration a cycle reports is real time
  and is left out of its event.
\<close>

datatype event =
    Info string
  | Errorf string "string list"
  | GenericMetricError string
  | Enqueue action
  | DiscovererUpstreamServicesMetric string int
  | DiscovererInvalidServicesMetric string int
  | CycleDurationMetric

text \<open>
  How a cycle ends: it runs to its last statement, it returns early (the catalog query
  failed), or it panics on a nil pointer.
\<close>

datatype outcome = Completed | Returned | Panicked

record cycle =
  trace :: "event list"
  outcome :: outcome

fun contains :: "string list \<Rightarrow> string \<Rightarrow> bool" where
  "contains [] e = False"
| "contains (v # s) e = (if e = v then True else contains s e)"

text \<open>
  The loop \<open>for name, tags := range services\<close>, with the slice \<open>svcs\<close> and the log so far.
\<close>

fun rangeServices ::
  "Reconciler \<Rightarrow> (string \<Rightarrow> error + ServiceEntry list) \<Rightarrow> (string \<times> string list) list \<Rightarrow>
     Service list \<Rightarrow> event list \<Rightarrow> Service list \<times> event list" where
  "rangeServices r health [] svcs evs = (svcs, evs)"
| "rangeServices r health ((name, tags) # rest) svcs evs =
     (if \<not> contains tags (tagFilter r) then rangeServices r health rest svcs evs
      else (case health name of
              Inl err \<Rightarrow>
                rangeServices r health rest svcs
                  (evs @ [Errorf ''can not get services(%s) from consul, err: %s'' [name, err]])
            | Inr servicesData \<Rightarrow>
                rangeServices r health rest (svcs @ [buildService name servicesData]) evs))"

definition reconcileSvcs :: "v1_Service list \<Rightarrow> v1_Service list \<Rightarrow> event list" where
  "reconcileSvcs desiredSvcs currentSvcs =
     (case diffServices desiredSvcs currentSvcs of
        (add, up, del) \<Rightarrow>
          map (\<lambda>svc. Enqueue (AddServiceAction svc)) add @
          map (\<lambda>svc. Enqueue (UpdateServiceAction svc)) up @
          map (\<lambda>svc. Enqueue (DeleteServiceAction svc)) del)"

definition reconcileEndpoints :: "Endpoints list \<Rightarrow> Endpoints list \<Rightarrow> event list" where
  "reconcileEndpoints desired current =
     (case diffEndpoints desired current of
        (add, up, del) \<Rightarrow>
          map (\<lambda>e. Enqueue (AddEndpointsAction (endpoints e) (upstreamName e))) add @
          map (\<lambda>e. Enqueue (UpdateEndpointsAction (endpoints e) (upstreamName e))) up @
          map (\<lambda>e. Enqueue (DeleteEndpointsAction (endpoints e) (upstreamName e))) del)"

text \<open>What a failed \<open>List\<close> call adds to the trace: the error counter, then the log line.\<close>

definition listFailure :: "string \<Rightarrow> string \<Rightarrow> string \<Rightarrow> error option \<Rightarrow> event list" where
  "listFailure metric format ns err =
     (case err of None \<Rightarrow> [] | Some e \<Rightarrow> [GenericMetricError metric, Errorf format [ns, e]])"

text \<open>
  The cycle from the listing of the observed resources on. The items of the endpoints
  list are read first (the conversion to \<open>[]Endpoints\<close>), the items of the services list
  when \<open>reconcileSvcs\<close> is called; reading through a nil pointer panics.
\<close>

definition reconcileObserved ::
  "externals \<Rightarrow> Reconciler \<Rightarrow> responses \<Rightarrow> Service list \<Rightarrow> event list \<Rightarrow> cycle" where
  "reconcileObserved ext r resp svcs evs =
     (case ListServices resp of (currentServices, err) \<Rightarrow>
      let evs = evs @ listFailure ''ListServicesInNamespace''
                  ''error listing services in namespace %q: %v'' (namespace r) err in
      case ListEndpoints resp of (currentk8sEndpoints, err) \<Rightarrow>
      let evs = evs @ listFailure ''ListEndpointsInNamespace''
                  ''error listing endpoints in namespace:%q: %v'' (namespace r) err in
      case currentk8sEndpoints of
        None \<Rightarrow> \<lparr>trace = evs, outcome = Panicked\<rparr>
      | Some epl \<Rightarrow>
          let currentEndpoints = map (\<lambda>v. \<lparr>endpoints = v, upstreamName = []\<rparr>) (el_Items epl);
              desiredSvcs = kubeServices ext (backendName r) (namespace r) svcs
          in case currentServices of
               None \<Rightarrow> \<lparr>trace = evs, outcome = Panicked\<rparr>
             | Some sl \<Rightarrow>
                 let evs = evs @ reconcileSvcs desiredSvcs (sl_Items sl);
                     desiredEndpoints = kubeEndpoints ext (backendName r) (namespace r) svcs;
                     evs = evs @ reconcileEndpoints desiredEndpoints currentEndpoints;
                     totalUpstreamServices = int (length svcs);
                     totalInvalidServices = totalUpstreamServices - int (length svcs);
                     evs = evs @ [DiscovererUpstreamServicesMetric (namespace r) totalUpstreamServices,
                                  DiscovererInvalidServicesMetric (namespace r) totalInvalidServices,
                                  CycleDurationMetric]
                 in \<lparr>trace = evs, outcome = Completed\<rparr>)"

definition reconcile :: "externals \<Rightarrow> Reconciler \<Rightarrow> responses \<Rightarrow> cycle" where
  "reconcile ext r resp =
     (let evs = [Info ''reconciling consul services''] in
      case CatalogServices resp of
        Inl err \<Rightarrow>
          \<lparr>trace = evs @ [Errorf ''can not get services from consul, err: %s'' [err]],
           outcome = Returned\<rparr>
      | Inr services \<Rightarrow>
          (case rangeServices r (HealthService resp) services [] evs of
             (svcs, evs) \<Rightarrow> reconcileObserved ext r resp svcs evs))"

text \<open>
  The Service Model list \<open>svcs\<close> of a cycle, and the registry services that reach it: those
  that carry the filter tag and whose health query succeeds.
\<close>

definition serviceModels :: "Reconciler \<Rightarrow> responses \<Rightarrow> Service list" where
  "serviceModels r resp =
     (case CatalogServices resp of
        Inl err \<Rightarrow> []
      | Inr services \<Rightarrow> fst (rangeServices r (HealthService resp) services [] []))"

definition included :: "Reconciler \<Rightarrow> responses \<Rightarrow> (string \<times> string list) list \<Rightarrow> (string \<times> string list) list" where
  "included r resp services =
     filter (\<lambda>(name, tags). tagFilter r \<in> set tags \<and> \<not> isl (HealthService resp name)) services"

section \<open>Concrete inputs\<close>

text \<open>
  A stand-in for the missing translator, used where a property is evaluated on a concrete
  input: the derived name joins the backend and the service name with a dash, the labels
  are passed through, and lower-casing is that of ASCII letters.
\<close>

definition lowerChar :: "char \<Rightarrow> char" where
  "lowerChar c =
     (case map_of (zip ''ABCDEFGHIJKLMNOPQRSTUVWXYZ'' ''abcdefghijklmnopqrstuvwxyz'') c of
        None \<Rightarrow> c
      | Some l \<Rightarrow> l)"

definition asciiToLower :: "string \<Rightarrow> string" where
  "asciiToLower s = map lowerChar s"

definition ext0 :: externals where
  "ext0 = \<lparr>BuildDiscoveredName = (\<lambda>backend name. backend @ ''-'' @ name),
           AddGimbalLabels = (\<lambda>backend name labels. labels),
           ToLower = asciiToLower\<rparr>"

definition r0 :: Reconciler where
  "r0 = \<lparr>backendName = ''consul'', tagFilter = ''gateway'', namespace = ''ns''\<rparr>"

text \<open>
  Three registry services: \<open>web\<close> on port 80, \<open>Web\<close> on port 8080 (its derived name is that
  of \<open>web\<close>) and \<open>api\<close> on port 443; and their projections.
\<close>

definition web80 :: Service where
  "web80 = \<lparr>Name = ''web'', Port = 80, Nodes = [''10.0.0.1'']\<rparr>"

definition Web8080 :: Service where
  "Web8080 = \<lparr>Name = ''Web'', Port = 8080, Nodes = [''10.0.0.2'']\<rparr>"

definition api443 :: Service where
  "api443 = \<lparr>Name = ''api'', Port = 443, Nodes = [''10.0.0.3'', ''10.0.0.3'']\<rparr>"

definition svcOf :: "Service \<Rightarrow> v1_Service" where
  "svcOf m = kubeService ext0 ''consul'' ''ns'' m"

definition epOf :: "Service \<Rightarrow> Endpoints" where
  "epOf m = kubeEndpoint ext0 ''consul'' ''ns'' m"


definition catalog0 :: "(string \<times> string list) list" where
  "catalog0 = [(''web'', [''v1'', ''gateway'']), (''db'', [''internal''])]"

definition health0 :: "string \<Rightarrow> error + ServiceEntry list" where
  "health0 name =
     (if name = ''web'' then Inr [\<lparr>se_Service = \<lparr>as_Address = ''10.0.0.1'', as_Port = 80\<rparr>\<rparr>]
      else Inl ''no such service'')"

definition respQuiet :: responses where
  "respQuiet = \<lparr>CatalogServices = Inr catalog0, HealthService = health0,
                ListServices = (Some \<lparr>sl_Items = []\<rparr>, None),
                ListEndpoints = (Some \<lparr>el_Items = []\<rparr>, None)\<rparr>"




section \<open>Properties\<close>

subsection \<open>The Service Model\<close>

lemma rangeServicesData_eq:
  "rangeServicesData es svc nodes =
     (svc\<lparr>Port := (if Port svc = 0
                     then (case find (\<lambda>e. as_Port (se_Service e) \<noteq> 0) es of
                             None \<Rightarrow> 0 | Some e \<Rightarrow> as_Port (se_Service e))
                     else Port svc)\<rparr>,
      nodes @ map (\<lambda>e. as_Address (se_Service e)) es)"
proof (induction es arbitrary: svc nodes)
  case Nil
  then show ?case by simp
next
  case (Cons e es)
  then show ?case by (cases "as_Port (se_Service e) = 0") simp_all
qed

text \<open>
  C7. The Service Model built from a healthy-instance response has the port of the first
  instance, in response order, whose port is not zero (zero when there is none), and as
  nodes the instance addresses in response order, duplicates kept.
\<close>

theorem C7_buildService:
  "buildService name servicesData =
     \<lparr>Name = name,
      Port = (case find (\<lambda>entry. as_Port (se_Service entry) \<noteq> 0) servicesData of
                None \<Rightarrow> 0 | Some entry \<Rightarrow> as_Port (se_Service entry)),
      Nodes = map (\<lambda>entry. as_Address (se_Service entry)) servicesData\<rparr>"
  by (simp add: buildService_def rangeServicesData_eq)

subsection \<open>The differ computes the classification\<close>

lemma serviceEquals_iff: "serviceEquals a b \<longleftrightarrow> identitySvc a = identitySvc b"
  by (auto simp: serviceEquals_def identitySvc_def GetName_def GetNamespace_def)

lemma endpointEquals_iff: "endpointEquals a b \<longleftrightarrow> identityEp a = identityEp b"
  by (auto simp: endpointEquals_def identityEp_def GetName_def GetNamespace_def)

lemma serviceEqualsDetail_iff:
  "serviceEqualsDetail a b \<longleftrightarrow> identitySvc a = identitySvc b \<and> detailSvc a = detailSvc b"
  by (auto simp: serviceEqualsDetail_def identitySvc_def detailSvc_def GetName_def GetNamespace_def)

lemma endpointEqualsDetail_iff:
  "endpointEqualsDetail a b \<longleftrightarrow> identityEp a = identityEp b \<and> detailEp a = detailEp b"
  by (auto simp: endpointEqualsDetail_def identityEp_def detailEp_def GetName_def GetNamespace_def)

lemma containsSvc_iff: "containsSvc x xs \<longleftrightarrow> identitySvc x \<in> identitySvc ` set xs"
  by (induction xs) (auto simp: serviceEquals_iff)

lemma containsEndpoint_iff: "containsEndpoint x xs \<longleftrightarrow> identityEp x \<in> identityEp ` set xs"
  by (induction xs) (auto simp: endpointEquals_iff)

lemma rangeDelSvcs_eq:
  "rangeDelSvcs desired current del =
     del @ filter (\<lambda>c. identitySvc c \<notin> identitySvc ` set desired) current"
  by (induction current arbitrary: del) (simp_all add: containsSvc_iff)

lemma rangeAddSvcs_eq:
  "rangeAddSvcs current desired add =
     add @ filter (\<lambda>d. identitySvc d \<notin> identitySvc ` set current) desired"
  by (induction desired arbitrary: add) (simp_all add: containsSvc_iff)

lemma matchDesiredSvc_eq:
  "matchDesiredSvc c desired update = update @ firstMatch identitySvc detailSvc desired c"
  by (induction desired) (simp_all add: firstMatch_def serviceEquals_iff serviceEqualsDetail_iff)

lemma rangeUpdateSvcs_eq:
  "rangeUpdateSvcs desired current update =
     update @ firstMatchUpdates identitySvc detailSvc desired current"
  by (induction current arbitrary: update) (simp_all add: firstMatchUpdates_def matchDesiredSvc_eq)

lemma diffServices_eq:
  "diffServices desired current =
     (filter (\<lambda>d. identitySvc d \<notin> identitySvc ` set current) desired,
      firstMatchUpdates identitySvc detailSvc desired current,
      filter (\<lambda>c. identitySvc c \<notin> identitySvc ` set desired) current)"
  by (simp add: diffServices_def rangeDelSvcs_eq rangeAddSvcs_eq rangeUpdateSvcs_eq)

lemma rangeDelEps_eq:
  "rangeDelEps desired current del =
     del @ filter (\<lambda>c. identityEp c \<notin> identityEp ` set desired) current"
  by (induction current arbitrary: del) (simp_all add: containsEndpoint_iff)

lemma rangeAddEps_eq:
  "rangeAddEps current desired add =
     add @ filter (\<lambda>d. identityEp d \<notin> identityEp ` set current) desired"
  by (induction desired arbitrary: add) (simp_all add: containsEndpoint_iff)

lemma matchDesiredEp_eq:
  "matchDesiredEp c desired update = update @ firstMatch identityEp detailEp desired c"
  by (induction desired) (simp_all add: firstMatch_def endpointEquals_iff endpointEqualsDetail_iff)

lemma rangeUpdateEps_eq:
  "rangeUpdateEps desired current update =
     update @ firstMatchUpdates identityEp detailEp desired current"
  by (induction current arbitrary: update) (simp_all add: firstMatchUpdates_def matchDesiredEp_eq)

lemma diffEndpoints_eq:
  "diffEndpoints desired current =
     (filter (\<lambda>d. identityEp d \<notin> identityEp ` set current) desired,
      firstMatchUpdates identityEp detailEp desired current,
      filter (\<lambda>c. identityEp c \<notin> identityEp ` set desired) current)"
  by (simp add: diffEndpoints_def rangeDelEps_eq rangeAddEps_eq rangeUpdateEps_eq)

text \<open>The first desired entry of an identity, and what \<open>firstMatchUpdates\<close> holds.\<close>

lemma find_ident_Some:
  "find (\<lambda>d. k = ident d) desired = Some d \<Longrightarrow> d \<in> set desired \<and> ident d = k"
  by (induction desired) (auto split: if_splits)

lemma find_ident_None:
  "find (\<lambda>d. k = ident d) desired = None \<longleftrightarrow> k \<notin> ident ` set desired"
  by (induction desired) auto

lemma find_ident_distinct:
  "distinct (map ident desired) \<Longrightarrow> d \<in> set desired \<Longrightarrow>
     find (\<lambda>x. ident d = ident x) desired = Some d"
  by (induction desired) (auto simp: image_iff)

lemma find_ident_ex:
  "k \<in> ident ` set desired \<Longrightarrow> \<exists>d. find (\<lambda>d. k = ident d) desired = Some d"
  using find_ident_None [of k ident desired] by (cases "find (\<lambda>d. k = ident d) desired") auto

lemma firstMatch_mem:
  "u \<in> set (firstMatch ident detail desired c) \<longleftrightarrow>
     find (\<lambda>d. ident c = ident d) desired = Some u \<and> detail c \<noteq> detail u"
  by (cases "find (\<lambda>d. ident c = ident d) desired") (auto simp: firstMatch_def)

lemma firstMatch_Nil_iff:
  "firstMatch ident detail desired c = [] \<longleftrightarrow>
     (\<forall>d. find (\<lambda>d. ident c = ident d) desired = Some d \<longrightarrow> detail c = detail d)"
  by (cases "find (\<lambda>d. ident c = ident d) desired") (auto simp: firstMatch_def)

lemma firstMatchUpdates_mem:
  "u \<in> set (firstMatchUpdates ident detail desired current) \<longleftrightarrow>
     (\<exists>c\<in>set current. find (\<lambda>d. ident c = ident d) desired = Some u \<and> detail c \<noteq> detail u)"
  by (simp add: firstMatchUpdates_def firstMatch_mem)

lemma firstMatchUpdates_sound:
  assumes "u \<in> set (firstMatchUpdates ident detail desired current)"
  shows "u \<in> set desired \<and> (\<exists>c\<in>set current. ident c = ident u \<and> detail c \<noteq> detail u)"
proof -
  from assms obtain c where c: "c \<in> set current"
    and f: "find (\<lambda>d. ident c = ident d) desired = Some u" and n: "detail c \<noteq> detail u"
    unfolding firstMatchUpdates_mem by blast
  from find_ident_Some [OF f] have "u \<in> set desired" "ident u = ident c" by simp_all
  with c n show ?thesis by metis
qed

lemma firstMatchUpdates_subset: "set (firstMatchUpdates ident detail desired current) \<subseteq> set desired"
proof
  fix u assume "u \<in> set (firstMatchUpdates ident detail desired current)"
  then show "u \<in> set desired" by (rule firstMatchUpdates_sound [THEN conjunct1])
qed

lemma firstMatchUpdates_distinct:
  assumes "distinct (map ident desired)"
  shows "set (firstMatchUpdates ident detail desired current) =
           {d \<in> set desired. \<exists>c\<in>set current. ident c = ident d \<and> detail c \<noteq> detail d}"
    (is "?L = ?R")
proof (rule set_eqI)
  fix d
  show "d \<in> ?L \<longleftrightarrow> d \<in> ?R"
  proof
    assume "d \<in> ?L"
    from firstMatchUpdates_sound [OF this] show "d \<in> ?R" by simp
  next
    assume "d \<in> ?R"
    then obtain c where d: "d \<in> set desired" and c: "c \<in> set current"
      and k: "ident c = ident d" and neq: "detail c \<noteq> detail d"
      by blast
    from find_ident_distinct [OF assms d] k
    have "find (\<lambda>x. ident c = ident x) desired = Some d" by simp
    with c neq show "d \<in> ?L"
      unfolding firstMatchUpdates_mem by blast
  qed
qed

lemma firstMatchUpdates_Nil_iff:
  "firstMatchUpdates ident detail desired current = [] \<longleftrightarrow>
     (\<forall>c\<in>set current. firstMatch ident detail desired c = [])"
  by (simp add: firstMatchUpdates_def)

lemma firstMatchUpdates_self:
  "firstMatchUpdates ident detail x x = [] \<longleftrightarrow>
     (\<forall>a\<in>set x. \<forall>b\<in>set x. ident a = ident b \<longrightarrow> detail a = detail b)"
proof
  assume agree: "\<forall>a\<in>set x. \<forall>b\<in>set x. ident a = ident b \<longrightarrow> detail a = detail b"
  show "firstMatchUpdates ident detail x x = []"
    unfolding firstMatchUpdates_Nil_iff firstMatch_Nil_iff
  proof (intro ballI allI impI)
    fix c d assume c: "c \<in> set x" and f: "find (\<lambda>d. ident c = ident d) x = Some d"
    from find_ident_Some [OF f] have "d \<in> set x" "ident d = ident c" by simp_all
    with c agree show "detail c = detail d" by metis
  qed
next
  assume empty: "firstMatchUpdates ident detail x x = []"
  show "\<forall>a\<in>set x. \<forall>b\<in>set x. ident a = ident b \<longrightarrow> detail a = detail b"
  proof (intro ballI impI)
    fix a b assume a: "a \<in> set x" and b: "b \<in> set x" and k: "ident a = ident b"
    from a have "ident a \<in> ident ` set x" by simp
    from find_ident_ex [OF this] obtain d where d: "find (\<lambda>d. ident a = ident d) x = Some d"
      by blast
    from empty a d have da: "detail a = detail d"
      unfolding firstMatchUpdates_Nil_iff firstMatch_Nil_iff by blast
    from d k have "find (\<lambda>d. ident b = ident d) x = Some d" by simp
    with empty b have "detail b = detail d"
      unfolding firstMatchUpdates_Nil_iff firstMatch_Nil_iff by blast
    with da show "detail a = detail b" by simp
  qed
qed

text \<open>With each identity at most once per list, an identity has exactly one outcome.\<close>

lemma distinct_ident_eq:
  "distinct (map ident xs) \<Longrightarrow> a \<in> set xs \<Longrightarrow> b \<in> set xs \<Longrightarrow> ident a = ident b \<Longrightarrow> a = b"
  by (auto simp: distinct_map dest: inj_onD)

lemma firstMatchUpdates_ident:
  assumes "u \<in> set (firstMatchUpdates ident detail desired current)"
  shows "ident u \<in> ident ` set desired \<and> ident u \<in> ident ` set current"
proof -
  from firstMatchUpdates_sound [OF assms] obtain c
    where "u \<in> set desired" "c \<in> set current" "ident c = ident u"
    by blast
  then show ?thesis by (metis imageI)
qed

lemma unchanged_ident:
  assumes "k \<in> unchanged ident detail desired current"
  shows "k \<in> ident ` set desired \<and> k \<in> ident ` set current"
proof -
  from assms obtain d c where "d \<in> set desired" "ident d = k" "c \<in> set current" "ident c = ident d"
    unfolding unchanged_def by blast
  then show ?thesis by (metis imageI)
qed

lemma outcomes_one:
  assumes dd: "distinct (map ident desired)" and dc: "distinct (map ident current)"
    and k: "k \<in> ident ` set desired \<union> ident ` set current"
  shows "outcomes
           (ident ` set (filter (\<lambda>d. ident d \<notin> ident ` set current) desired))
           (ident ` set (firstMatchUpdates ident detail desired current))
           (ident ` set (filter (\<lambda>c. ident c \<notin> ident ` set desired) current))
           (unchanged ident detail desired current) k = 1"
proof -
  let ?A = "ident ` set (filter (\<lambda>d. ident d \<notin> ident ` set current) desired)"
  let ?U = "ident ` set (firstMatchUpdates ident detail desired current)"
  let ?D = "ident ` set (filter (\<lambda>c. ident c \<notin> ident ` set desired) current)"
  let ?N = "unchanged ident detail desired current"
  have U: "set (firstMatchUpdates ident detail desired current) =
             {d \<in> set desired. \<exists>c\<in>set current. ident c = ident d \<and> detail c \<noteq> detail d}"
    by (rule firstMatchUpdates_distinct [OF dd])
  have A_iff: "k \<in> ?A \<longleftrightarrow> k \<in> ident ` set desired \<and> k \<notin> ident ` set current"
    by auto
  have D_iff: "k \<in> ?D \<longleftrightarrow> k \<in> ident ` set current \<and> k \<notin> ident ` set desired"
    by auto
  show ?thesis
  proof (cases "k \<in> ident ` set desired \<and> k \<in> ident ` set current")
    case False
    with k have one: "(k \<in> ?A \<and> k \<notin> ?D) \<or> (k \<notin> ?A \<and> k \<in> ?D)"
      unfolding A_iff D_iff by blast
    from False have "k \<notin> ?U"
      using firstMatchUpdates_ident [of _ ident detail desired current] by blast
    moreover from False have "k \<notin> ?N"
      using unchanged_ident [of k ident detail desired current] by blast
    ultimately show ?thesis
      using one unfolding outcomes_def by auto
  next
    case True
    then obtain d c where d: "d \<in> set desired" "ident d = k" and c: "c \<in> set current" "ident c = k"
      by auto
    from True have nA: "k \<notin> ?A" and nD: "k \<notin> ?D"
      unfolding A_iff D_iff by simp_all
    have U_iff: "k \<in> ?U \<longleftrightarrow> detail c \<noteq> detail d"
    proof
      assume "k \<in> ?U"
      then obtain d' c' where "d' \<in> set desired" "ident d' = k" "c' \<in> set current"
        "ident c' = ident d'" "detail c' \<noteq> detail d'"
        unfolding U by auto
      moreover from this d have "d' = d" using distinct_ident_eq [OF dd] by metis
      moreover from calculation c have "c' = c" using distinct_ident_eq [OF dc] by metis
      ultimately show "detail c \<noteq> detail d" by simp
    next
      assume "detail c \<noteq> detail d"
      with d c have "d \<in> {d \<in> set desired. \<exists>c\<in>set current. ident c = ident d \<and> detail c \<noteq> detail d}"
        by auto
      with d show "k \<in> ?U" unfolding U by blast
    qed
    have N_iff: "k \<in> ?N \<longleftrightarrow> detail c = detail d"
    proof
      assume "k \<in> ?N"
      then obtain d' c' where "d' \<in> set desired" "ident d' = k" "c' \<in> set current"
        "ident c' = ident d'" "detail c' = detail d'"
        unfolding unchanged_def by auto
      moreover from this d have "d' = d" using distinct_ident_eq [OF dd] by metis
      moreover from calculation c have "c' = c" using distinct_ident_eq [OF dc] by metis
      ultimately show "detail c = detail d" by simp
    next
      assume "detail c = detail d"
      with d c have "d \<in> {d \<in> set desired. \<exists>c\<in>set current. ident c = ident d \<and> detail c = detail d}"
        by auto
      with d show "k \<in> ?N" unfolding unchanged_def by blast
    qed
    show ?thesis
      using nA nD U_iff N_iff unfolding outcomes_def by auto
  qed
qed

lemma add_update_del_disjoint:
  "ident ` set (filter (\<lambda>d. ident d \<notin> ident ` set current) desired) \<inter>
     ident ` set (firstMatchUpdates ident detail desired current) = {}"
  "ident ` set (filter (\<lambda>d. ident d \<notin> ident ` set current) desired) \<inter>
     ident ` set (filter (\<lambda>c. ident c \<notin> ident ` set desired) current) = {}"
  "ident ` set (firstMatchUpdates ident detail desired current) \<inter>
     ident ` set (filter (\<lambda>c. ident c \<notin> ident ` set desired) current) = {}"
proof -
  let ?A = "ident ` set (filter (\<lambda>d. ident d \<notin> ident ` set current) desired)"
  let ?U = "ident ` set (firstMatchUpdates ident detail desired current)"
  let ?D = "ident ` set (filter (\<lambda>c. ident c \<notin> ident ` set desired) current)"
  have U: "k \<in> ident ` set desired \<and> k \<in> ident ` set current" if "k \<in> ?U" for k
    using that firstMatchUpdates_ident [of _ ident detail desired current] by blast
  have A: "k \<in> ident ` set desired \<and> k \<notin> ident ` set current" if "k \<in> ?A" for k
    using that by auto
  have D: "k \<in> ident ` set current \<and> k \<notin> ident ` set desired" if "k \<in> ?D" for k
    using that by auto
  show "?A \<inter> ?U = {}" using A U by blast
  show "?A \<inter> ?D = {}" using A D by blast
  show "?U \<inter> ?D = {}" using U D by blast
qed

subsection \<open>The concrete inputs, evaluated\<close>

lemma ident_svcOf:
  "identitySvc (svcOf web80) = (''consul-web'', ''ns'')"
  "identitySvc (svcOf Web8080) = (''consul-web'', ''ns'')"
  "identitySvc (svcOf api443) = (''consul-api'', ''ns'')"
  by (simp_all add: identitySvc_def svcOf_def kubeService_def ext0_def serviceName_def
        web80_def Web8080_def api443_def asciiToLower_def lowerChar_def)

lemma detail_svcOf:
  "detailSvc (svcOf web80) \<noteq> detailSvc (svcOf Web8080)"
  by (simp add: detailSvc_def svcOf_def kubeService_def web80_def Web8080_def int32_of_def)

lemma ident_epOf:
  "identityEp (epOf web80) = (''consul-web'', ''ns'')"
  "identityEp (epOf Web8080) = (''consul-web'', ''ns'')"
  "identityEp (epOf api443) = (''consul-api'', ''ns'')"
  by (simp_all add: identityEp_def epOf_def kubeEndpoint_def ext0_def serviceName_def
        web80_def Web8080_def api443_def asciiToLower_def lowerChar_def Let_def)

lemma rangeSubsets_Subsets:
  "Subsets (rangeSubsets subsets ep) = (if subsets = [] then Subsets ep else Some (elems (Subsets ep) @ map snd subsets))"
  by (induction subsets ep rule: rangeSubsets.induct) (auto simp: append_slice_def elems_def)

lemma detail_epOf:
  "detailEp (epOf web80) \<noteq> detailEp (epOf Web8080)"
  by (simp add: detailEp_def epOf_def kubeEndpoint_def web80_def Web8080_def Let_def
        index_subsets_def zeroEndpointSubset_def len_slice_def elems_def append_slice_def
        int32_of_def)

subsection \<open>Claims about the differ\<close>

text \<open>
  C1 (as amended). For every desired and observed list, of Services and of Endpoints: the
  add set is the desired entries whose identity no observed entry has, the delete set is
  the observed entries whose identity no desired entry has, and the update set holds, for
  each observed entry in order, the first desired entry of the same identity when its
  detail (\<open>Spec.Ports\<close>, \<open>Subsets\<close>) differs from the observed entry's. Every update entry
  has an observed entry of its identity with a different detail, so nothing but the
  detail triggers an update. When each identity occurs at most once in the desired list,
  the update set is exactly the desired entries that have an observed entry of the same
  identity and a different detail.
\<close>

theorem C1_diff_classification:
  "diffServices desired current =
     (filter (\<lambda>d. identitySvc d \<notin> identitySvc ` set current) desired,
      firstMatchUpdates identitySvc detailSvc desired current,
      filter (\<lambda>c. identitySvc c \<notin> identitySvc ` set desired) current)
   \<and> diffEndpoints desiredE currentE =
     (filter (\<lambda>d. identityEp d \<notin> identityEp ` set currentE) desiredE,
      firstMatchUpdates identityEp detailEp desiredE currentE,
      filter (\<lambda>c. identityEp c \<notin> identityEp ` set desiredE) currentE)
   \<and> (\<forall>u\<in>set (fst (snd (diffServices desired current))).
        \<exists>c\<in>set current. identitySvc c = identitySvc u \<and> Ports (Spec c) \<noteq> Ports (Spec u))
   \<and> (\<forall>u\<in>set (fst (snd (diffEndpoints desiredE currentE))).
        \<exists>c\<in>set currentE. identityEp c = identityEp u \<and> Subsets (endpoints c) \<noteq> Subsets (endpoints u))
   \<and> (distinct (map identitySvc desired) \<longrightarrow>
        set (fst (snd (diffServices desired current))) =
          {d \<in> set desired. \<exists>c\<in>set current.
             identitySvc c = identitySvc d \<and> Ports (Spec c) \<noteq> Ports (Spec d)})
   \<and> (distinct (map identityEp desiredE) \<longrightarrow>
        set (fst (snd (diffEndpoints desiredE currentE))) =
          {d \<in> set desiredE. \<exists>c\<in>set currentE.
             identityEp c = identityEp d \<and> Subsets (endpoints c) \<noteq> Subsets (endpoints d)})"
proof (intro conjI impI ballI)
  fix u assume "u \<in> set (fst (snd (diffServices desired current)))"
  then have "u \<in> set (firstMatchUpdates identitySvc detailSvc desired current)"
    by (simp add: diffServices_eq)
  from firstMatchUpdates_sound [OF this]
  show "\<exists>c\<in>set current. identitySvc c = identitySvc u \<and> Ports (Spec c) \<noteq> Ports (Spec u)"
    by (simp add: detailSvc_def)
next
  fix u assume "u \<in> set (fst (snd (diffEndpoints desiredE currentE)))"
  then have "u \<in> set (firstMatchUpdates identityEp detailEp desiredE currentE)"
    by (simp add: diffEndpoints_eq)
  from firstMatchUpdates_sound [OF this]
  show "\<exists>c\<in>set currentE. identityEp c = identityEp u \<and> Subsets (endpoints c) \<noteq> Subsets (endpoints u)"
    by (simp add: detailEp_def)
next
  show "diffServices desired current =
     (filter (\<lambda>d. identitySvc d \<notin> identitySvc ` set current) desired,
      firstMatchUpdates identitySvc detailSvc desired current,
      filter (\<lambda>c. identitySvc c \<notin> identitySvc ` set desired) current)"
    by (rule diffServices_eq)
  show "diffEndpoints desiredE currentE =
     (filter (\<lambda>d. identityEp d \<notin> identityEp ` set currentE) desiredE,
      firstMatchUpdates identityEp detailEp desiredE currentE,
      filter (\<lambda>c. identityEp c \<notin> identityEp ` set desiredE) currentE)"
    by (rule diffEndpoints_eq)
next
  assume "distinct (map identitySvc desired)"
  from firstMatchUpdates_distinct [OF this, of detailSvc current]
  show "set (fst (snd (diffServices desired current))) =
          {d \<in> set desired. \<exists>c\<in>set current.
             identitySvc c = identitySvc d \<and> Ports (Spec c) \<noteq> Ports (Spec d)}"
    by (simp add: diffServices_eq detailSvc_def)
next
  assume "distinct (map identityEp desiredE)"
  from firstMatchUpdates_distinct [OF this, of detailEp currentE]
  show "set (fst (snd (diffEndpoints desiredE currentE))) =
          {d \<in> set desiredE. \<exists>c\<in>set currentE.
             identityEp c = identityEp d \<and> Subsets (endpoints c) \<noteq> Subsets (endpoints d)}"
    by (simp add: diffEndpoints_eq detailEp_def)
qed

theorem C1_diff_classification_witness:
  "distinct (map identitySvc [svcOf Web8080, svcOf api443]) \<and>
   distinct (map identityEp [epOf Web8080, epOf api443]) \<and>
   diffServices [svcOf Web8080, svcOf api443] [svcOf web80] =
     ([svcOf api443], [svcOf Web8080], []) \<and>
   diffEndpoints [epOf Web8080, epOf api443] [epOf web80] =
     ([epOf api443], [epOf Web8080], []) \<and>
   set (fst (snd (diffServices [svcOf Web8080, svcOf api443] [svcOf web80]))) =
     {d \<in> set [svcOf Web8080, svcOf api443]. \<exists>c\<in>set [svcOf web80].
        identitySvc c = identitySvc d \<and> Ports (Spec c) \<noteq> Ports (Spec d)} \<and>
   set (fst (snd (diffEndpoints [epOf Web8080, epOf api443] [epOf web80]))) =
     {d \<in> set [epOf Web8080, epOf api443]. \<exists>c\<in>set [epOf web80].
        identityEp c = identityEp d \<and> Subsets (endpoints c) \<noteq> Subsets (endpoints d)}"
proof -
  note C1 = C1_diff_classification [of "[svcOf Web8080, svcOf api443]" "[svcOf web80]"
              "[epOf Web8080, epOf api443]" "[epOf web80]"]
  have "diffServices [svcOf Web8080, svcOf api443] [svcOf web80] =
          ([svcOf api443], [svcOf Web8080], [])"
    unfolding C1 [THEN conjunct1]
    using detail_svcOf by (simp add: ident_svcOf firstMatchUpdates_def firstMatch_def)
  moreover have "diffEndpoints [epOf Web8080, epOf api443] [epOf web80] =
          ([epOf api443], [epOf Web8080], [])"
    unfolding C1 [THEN conjunct2, THEN conjunct1]
    using detail_epOf by (simp add: ident_epOf firstMatchUpdates_def firstMatch_def)
  moreover have ds: "distinct (map identitySvc [svcOf Web8080, svcOf api443])"
    by (simp add: ident_svcOf)
  moreover have de: "distinct (map identityEp [epOf Web8080, epOf api443])"
    by (simp add: ident_epOf)
  moreover note C1 [THEN conjunct2, THEN conjunct2, THEN conjunct2, THEN conjunct2,
                    THEN conjunct1, rule_format, OF ds]
  moreover note C1 [THEN conjunct2, THEN conjunct2, THEN conjunct2, THEN conjunct2,
                    THEN conjunct2, rule_format, OF de]
  ultimately show ?thesis by (intro conjI)
qed

text \<open>
  C1 as stated fails where an identity occurs twice in the desired list: the desired entry
  \<open>svcOf Web8080\<close> has the identity of the observed \<open>svcOf web80\<close> and other ports, and the
  update set is empty, the first desired entry of that identity being equal in detail.
\<close>

theorem C1_update_misses_second_desired_entry:
  "svcOf Web8080 \<in> set [svcOf web80, svcOf Web8080] \<and>
   svcOf web80 \<in> set [svcOf web80] \<and>
   identitySvc (svcOf web80) = identitySvc (svcOf Web8080) \<and>
   Ports (Spec (svcOf web80)) \<noteq> Ports (Spec (svcOf Web8080)) \<and>
   fst (snd (diffServices [svcOf web80, svcOf Web8080] [svcOf web80])) = []"
  using detail_svcOf
  by (simp add: diffServices_eq firstMatchUpdates_def firstMatch_def ident_svcOf detailSvc_def)


lemma partition_generic:
  assumes "distinct (map ident desired)" and "distinct (map ident current)"
  shows "(\<forall>k \<in> ident ` set desired \<union> ident ` set current.
            outcomes (ident ` set (filter (\<lambda>d. ident d \<notin> ident ` set current) desired))
                     (ident ` set (firstMatchUpdates ident detail desired current))
                     (ident ` set (filter (\<lambda>c. ident c \<notin> ident ` set desired) current))
                     (unchanged ident detail desired current) k = 1)
         \<and> ident ` set (filter (\<lambda>d. ident d \<notin> ident ` set current) desired) \<inter>
             ident ` set (firstMatchUpdates ident detail desired current) = {}
         \<and> ident ` set (filter (\<lambda>d. ident d \<notin> ident ` set current) desired) \<inter>
             ident ` set (filter (\<lambda>c. ident c \<notin> ident ` set desired) current) = {}
         \<and> ident ` set (firstMatchUpdates ident detail desired current) \<inter>
             ident ` set (filter (\<lambda>c. ident c \<notin> ident ` set desired) current) = {}"
proof (intro conjI ballI)
  fix k assume "k \<in> ident ` set desired \<union> ident ` set current"
  then show "outcomes (ident ` set (filter (\<lambda>d. ident d \<notin> ident ` set current) desired))
                     (ident ` set (firstMatchUpdates ident detail desired current))
                     (ident ` set (filter (\<lambda>c. ident c \<notin> ident ` set desired) current))
                     (unchanged ident detail desired current) k = 1"
    by (rule outcomes_one [OF assms])
qed (rule add_update_del_disjoint)+

text \<open>
  C2. When each identity occurs at most once in the desired list and at most once in the
  observed list, every identity of either list lies in exactly one of the four outcomes
  add, update, delete and left out as unchanged; and the identities of the add, update
  and delete sets are pairwise disjoint. For Services and for Endpoints.
\<close>

theorem C2_partition:
  "(distinct (map identitySvc desired) \<and> distinct (map identitySvc current) \<longrightarrow>
      (\<forall>k \<in> identitySvc ` set desired \<union> identitySvc ` set current.
         outcomes (identitySvc ` set (fst (diffServices desired current)))
                  (identitySvc ` set (fst (snd (diffServices desired current))))
                  (identitySvc ` set (snd (snd (diffServices desired current))))
                  (unchanged identitySvc detailSvc desired current) k = 1)
      \<and> identitySvc ` set (fst (diffServices desired current)) \<inter>
          identitySvc ` set (fst (snd (diffServices desired current))) = {}
      \<and> identitySvc ` set (fst (diffServices desired current)) \<inter>
          identitySvc ` set (snd (snd (diffServices desired current))) = {}
      \<and> identitySvc ` set (fst (snd (diffServices desired current))) \<inter>
          identitySvc ` set (snd (snd (diffServices desired current))) = {})
   \<and> (distinct (map identityEp desiredE) \<and> distinct (map identityEp currentE) \<longrightarrow>
      (\<forall>k \<in> identityEp ` set desiredE \<union> identityEp ` set currentE.
         outcomes (identityEp ` set (fst (diffEndpoints desiredE currentE)))
                  (identityEp ` set (fst (snd (diffEndpoints desiredE currentE))))
                  (identityEp ` set (snd (snd (diffEndpoints desiredE currentE))))
                  (unchanged identityEp detailEp desiredE currentE) k = 1)
      \<and> identityEp ` set (fst (diffEndpoints desiredE currentE)) \<inter>
          identityEp ` set (fst (snd (diffEndpoints desiredE currentE))) = {}
      \<and> identityEp ` set (fst (diffEndpoints desiredE currentE)) \<inter>
          identityEp ` set (snd (snd (diffEndpoints desiredE currentE))) = {}
      \<and> identityEp ` set (fst (snd (diffEndpoints desiredE currentE))) \<inter>
          identityEp ` set (snd (snd (diffEndpoints desiredE currentE))) = {})"
proof (rule conjI; rule impI)
  assume "distinct (map identitySvc desired) \<and> distinct (map identitySvc current)"
  then have d: "distinct (map identitySvc desired)" "distinct (map identitySvc current)"
    by simp_all
  show "(\<forall>k \<in> identitySvc ` set desired \<union> identitySvc ` set current.
         outcomes (identitySvc ` set (fst (diffServices desired current)))
                  (identitySvc ` set (fst (snd (diffServices desired current))))
                  (identitySvc ` set (snd (snd (diffServices desired current))))
                  (unchanged identitySvc detailSvc desired current) k = 1)
      \<and> identitySvc ` set (fst (diffServices desired current)) \<inter>
          identitySvc ` set (fst (snd (diffServices desired current))) = {}
      \<and> identitySvc ` set (fst (diffServices desired current)) \<inter>
          identitySvc ` set (snd (snd (diffServices desired current))) = {}
      \<and> identitySvc ` set (fst (snd (diffServices desired current))) \<inter>
          identitySvc ` set (snd (snd (diffServices desired current))) = {}"
    unfolding diffServices_eq fst_conv snd_conv by (rule partition_generic [OF d])
next
  assume "distinct (map identityEp desiredE) \<and> distinct (map identityEp currentE)"
  then have d: "distinct (map identityEp desiredE)" "distinct (map identityEp currentE)"
    by simp_all
  show "(\<forall>k \<in> identityEp ` set desiredE \<union> identityEp ` set currentE.
         outcomes (identityEp ` set (fst (diffEndpoints desiredE currentE)))
                  (identityEp ` set (fst (snd (diffEndpoints desiredE currentE))))
                  (identityEp ` set (snd (snd (diffEndpoints desiredE currentE))))
                  (unchanged identityEp detailEp desiredE currentE) k = 1)
      \<and> identityEp ` set (fst (diffEndpoints desiredE currentE)) \<inter>
          identityEp ` set (fst (snd (diffEndpoints desiredE currentE))) = {}
      \<and> identityEp ` set (fst (diffEndpoints desiredE currentE)) \<inter>
          identityEp ` set (snd (snd (diffEndpoints desiredE currentE))) = {}
      \<and> identityEp ` set (fst (snd (diffEndpoints desiredE currentE))) \<inter>
          identityEp ` set (snd (snd (diffEndpoints desiredE currentE))) = {}"
    unfolding diffEndpoints_eq fst_conv snd_conv by (rule partition_generic [OF d])
qed

theorem C2_partition_witness:
  "distinct (map identitySvc [svcOf Web8080, svcOf api443]) \<and>
   distinct (map identitySvc [svcOf web80]) \<and>
   distinct (map identityEp [epOf Web8080, epOf api443]) \<and>
   distinct (map identityEp [epOf web80]) \<and>
   outcomes (identitySvc ` set (fst (diffServices [svcOf Web8080, svcOf api443] [svcOf web80])))
            (identitySvc ` set (fst (snd (diffServices [svcOf Web8080, svcOf api443] [svcOf web80]))))
            (identitySvc ` set (snd (snd (diffServices [svcOf Web8080, svcOf api443] [svcOf web80]))))
            (unchanged identitySvc detailSvc [svcOf Web8080, svcOf api443] [svcOf web80])
            (''consul-web'', ''ns'') = 1 \<and>
   outcomes (identityEp ` set (fst (diffEndpoints [epOf Web8080, epOf api443] [epOf web80])))
            (identityEp ` set (fst (snd (diffEndpoints [epOf Web8080, epOf api443] [epOf web80]))))
            (identityEp ` set (snd (snd (diffEndpoints [epOf Web8080, epOf api443] [epOf web80]))))
            (unchanged identityEp detailEp [epOf Web8080, epOf api443] [epOf web80])
            (''consul-api'', ''ns'') = 1"
proof -
  have ds: "distinct (map identitySvc [svcOf Web8080, svcOf api443]) \<and>
            distinct (map identitySvc [svcOf web80])"
    by (simp add: ident_svcOf)
  have de: "distinct (map identityEp [epOf Web8080, epOf api443]) \<and>
            distinct (map identityEp [epOf web80])"
    by (simp add: ident_epOf)
  note C2 = C2_partition [of "[svcOf Web8080, svcOf api443]" "[svcOf web80]"
              "[epOf Web8080, epOf api443]" "[epOf web80]"]
  from C2 [THEN conjunct1, rule_format, OF ds, THEN conjunct1]
  have s: "outcomes (identitySvc ` set (fst (diffServices [svcOf Web8080, svcOf api443] [svcOf web80])))
            (identitySvc ` set (fst (snd (diffServices [svcOf Web8080, svcOf api443] [svcOf web80]))))
            (identitySvc ` set (snd (snd (diffServices [svcOf Web8080, svcOf api443] [svcOf web80]))))
            (unchanged identitySvc detailSvc [svcOf Web8080, svcOf api443] [svcOf web80])
            (''consul-web'', ''ns'') = 1"
    by (rule bspec) (simp add: ident_svcOf)
  from C2 [THEN conjunct2, rule_format, OF de, THEN conjunct1]
  have e: "outcomes (identityEp ` set (fst (diffEndpoints [epOf Web8080, epOf api443] [epOf web80])))
            (identityEp ` set (fst (snd (diffEndpoints [epOf Web8080, epOf api443] [epOf web80]))))
            (identityEp ` set (snd (snd (diffEndpoints [epOf Web8080, epOf api443] [epOf web80]))))
            (unchanged identityEp detailEp [epOf Web8080, epOf api443] [epOf web80])
            (''consul-api'', ''ns'') = 1"
    by (rule bspec) (simp add: ident_epOf)
  from ds de s e show ?thesis by blast
qed

lemma filter_self_ident: "filter (\<lambda>d. ident d \<notin> ident ` set x) x = []"
  by (simp add: filter_empty_conv)

lemma kubeServices_eq:
  "rangeKubeServices ext b ns services svcs = svcs @ map (kubeService ext b ns) services"
  by (induction services arbitrary: svcs) simp_all

lemma kubeServices_map: "kubeServices ext b ns services = map (kubeService ext b ns) services"
  by (simp add: kubeServices_def kubeServices_eq)

lemma kubeEndpoints_eq:
  "rangeKubeEndpoints ext b ns services eps = eps @ map (kubeEndpoint ext b ns) services"
  by (induction services arbitrary: eps) simp_all

lemma kubeEndpoints_map: "kubeEndpoints ext b ns services = map (kubeEndpoint ext b ns) services"
  by (simp add: kubeEndpoints_def kubeEndpoints_eq)

lemma distinct_agree:
  "distinct (map ident x) \<Longrightarrow> \<forall>a\<in>set x. \<forall>b\<in>set x. ident a = ident b \<longrightarrow> detail a = detail b"
  using distinct_ident_eq [of ident x] by metis

text \<open>
  C4 (as amended). Diffing a list of Services, or of Endpoints, against itself returns
  three empty sets exactly when the entries of the list that share an identity also
  share their detail; in particular whenever each identity occurs at most once in the
  list, as in a second cycle whose observed state is a desired projection of distinct
  derived names.
\<close>

theorem C4_diff_self:
  "(diffServices x x = ([], [], []) \<longleftrightarrow>
      (\<forall>a\<in>set x. \<forall>b\<in>set x. identitySvc a = identitySvc b \<longrightarrow> Ports (Spec a) = Ports (Spec b)))
   \<and> (diffEndpoints y y = ([], [], []) \<longleftrightarrow>
      (\<forall>a\<in>set y. \<forall>b\<in>set y. identityEp a = identityEp b \<longrightarrow>
         Subsets (endpoints a) = Subsets (endpoints b)))
   \<and> (distinct (map identitySvc x) \<longrightarrow> diffServices x x = ([], [], []))
   \<and> (distinct (map identityEp y) \<longrightarrow> diffEndpoints y y = ([], [], []))"
proof -
  have "diffServices x x = ([], firstMatchUpdates identitySvc detailSvc x x, [])"
    by (simp add: diffServices_eq filter_self_ident)
  then have "diffServices x x = ([], [], []) \<longleftrightarrow> firstMatchUpdates identitySvc detailSvc x x = []"
    by simp
  also have "\<dots> \<longleftrightarrow>
      (\<forall>a\<in>set x. \<forall>b\<in>set x. identitySvc a = identitySvc b \<longrightarrow> detailSvc a = detailSvc b)"
    by (rule firstMatchUpdates_self)
  finally have s: "diffServices x x = ([], [], []) \<longleftrightarrow>
      (\<forall>a\<in>set x. \<forall>b\<in>set x. identitySvc a = identitySvc b \<longrightarrow> Ports (Spec a) = Ports (Spec b))"
    unfolding detailSvc_def .
  have "diffEndpoints y y = ([], firstMatchUpdates identityEp detailEp y y, [])"
    by (simp add: diffEndpoints_eq filter_self_ident)
  then have "diffEndpoints y y = ([], [], []) \<longleftrightarrow> firstMatchUpdates identityEp detailEp y y = []"
    by simp
  also have "\<dots> \<longleftrightarrow>
      (\<forall>a\<in>set y. \<forall>b\<in>set y. identityEp a = identityEp b \<longrightarrow> detailEp a = detailEp b)"
    by (rule firstMatchUpdates_self)
  finally have e: "diffEndpoints y y = ([], [], []) \<longleftrightarrow>
      (\<forall>a\<in>set y. \<forall>b\<in>set y. identityEp a = identityEp b \<longrightarrow>
         Subsets (endpoints a) = Subsets (endpoints b))"
    unfolding detailEp_def .
  have ds: "diffServices x x = ([], [], [])" if "distinct (map identitySvc x)"
    unfolding s using distinct_agree [OF that, of "\<lambda>a. Ports (Spec a)"] .
  have de: "diffEndpoints y y = ([], [], [])" if "distinct (map identityEp y)"
    unfolding e using distinct_agree [OF that, of "\<lambda>a. Subsets (endpoints a)"] .
  show ?thesis
  proof (intro conjI impI)
    show "diffServices x x = ([], [], []) \<longleftrightarrow>
      (\<forall>a\<in>set x. \<forall>b\<in>set x. identitySvc a = identitySvc b \<longrightarrow> Ports (Spec a) = Ports (Spec b))"
      by (rule s)
    show "diffEndpoints y y = ([], [], []) \<longleftrightarrow>
      (\<forall>a\<in>set y. \<forall>b\<in>set y. identityEp a = identityEp b \<longrightarrow>
         Subsets (endpoints a) = Subsets (endpoints b))"
      by (rule e)
    show "diffServices x x = ([], [], [])" if "distinct (map identitySvc x)"
      using that by (rule ds)
    show "diffEndpoints y y = ([], [], [])" if "distinct (map identityEp y)"
      using that by (rule de)
  qed
qed

theorem C4_diff_self_witness:
  "distinct (map identitySvc (kubeServices ext0 ''consul'' ''ns'' [web80, api443])) \<and>
   distinct (map identityEp (kubeEndpoints ext0 ''consul'' ''ns'' [web80, api443])) \<and>
   diffServices (kubeServices ext0 ''consul'' ''ns'' [web80, api443])
                (kubeServices ext0 ''consul'' ''ns'' [web80, api443]) = ([], [], []) \<and>
   diffEndpoints (kubeEndpoints ext0 ''consul'' ''ns'' [web80, api443])
                 (kubeEndpoints ext0 ''consul'' ''ns'' [web80, api443]) = ([], [], [])"
proof -
  have ds: "distinct (map identitySvc (kubeServices ext0 ''consul'' ''ns'' [web80, api443]))"
    by (simp add: kubeServices_map svcOf_def [symmetric] ident_svcOf)
  have de: "distinct (map identityEp (kubeEndpoints ext0 ''consul'' ''ns'' [web80, api443]))"
    by (simp add: kubeEndpoints_map epOf_def [symmetric] ident_epOf)
  note C4 = C4_diff_self [of "kubeServices ext0 ''consul'' ''ns'' [web80, api443]"
              "kubeEndpoints ext0 ''consul'' ''ns'' [web80, api443]"]
  from ds de C4 [THEN conjunct2, THEN conjunct2, THEN conjunct1, rule_format, OF ds]
    C4 [THEN conjunct2, THEN conjunct2, THEN conjunct2, rule_format, OF de]
  show ?thesis by (intro conjI)
qed

text \<open>
  C4 as stated fails on a list that holds one identity with two details. The projection
  of the registry services \<open>web\<close> (port 80) and \<open>Web\<close> (port 8080) is such a list: diffed
  against itself, its update set holds the entry of \<open>web\<close>.
\<close>

theorem C4_diff_self_not_empty:
  "diffServices (kubeServices ext0 ''consul'' ''ns'' [web80, Web8080])
                (kubeServices ext0 ''consul'' ''ns'' [web80, Web8080])
     = ([], [svcOf web80], []) \<and>
   diffEndpoints (kubeEndpoints ext0 ''consul'' ''ns'' [web80, Web8080])
                 (kubeEndpoints ext0 ''consul'' ''ns'' [web80, Web8080])
     = ([], [epOf web80], [])"
  using detail_svcOf detail_epOf
  by (simp add: kubeServices_map kubeEndpoints_map svcOf_def [symmetric] epOf_def [symmetric]
        diffServices_eq diffEndpoints_eq firstMatchUpdates_def firstMatch_def
        ident_svcOf ident_epOf)

lemma reconcileSvcs_update:
  "Enqueue (UpdateServiceAction u) \<in> set (reconcileSvcs desired current) \<longleftrightarrow>
     u \<in> set (fst (snd (diffServices desired current)))"
  by (cases "diffServices desired current") (auto simp: reconcileSvcs_def)

lemma reconcileEndpoints_update:
  "Enqueue (UpdateEndpointsAction e n) \<in> set (reconcileEndpoints desired current) \<longleftrightarrow>
     \<lparr>endpoints = e, upstreamName = n\<rparr> \<in> set (fst (snd (diffEndpoints desired current)))"
proof -
  have *: "(\<exists>x\<in>A. e = endpoints x \<and> n = upstreamName x) \<longleftrightarrow> \<lparr>endpoints = e, upstreamName = n\<rparr> \<in> A" for A
  proof
    assume "\<exists>x\<in>A. e = endpoints x \<and> n = upstreamName x"
    then obtain x where x: "x \<in> A" and "e = endpoints x" "n = upstreamName x" by blast
    then have "\<lparr>endpoints = e, upstreamName = n\<rparr> = x" by (cases x) simp
    with x show "\<lparr>endpoints = e, upstreamName = n\<rparr> \<in> A" by (simp only:)
  next
    assume "\<lparr>endpoints = e, upstreamName = n\<rparr> \<in> A"
    then show "\<exists>x\<in>A. e = endpoints x \<and> n = upstreamName x" by force
  qed
  show ?thesis
    by (cases "diffEndpoints desired current") (auto simp: reconcileEndpoints_def image_iff *)
qed

text \<open>
  C10. Every element of the update set is an entry of the desired list, for Services and
  for Endpoints, and so is the resource of every update action handed to the queue.
\<close>

theorem C10_update_is_desired:
  "set (fst (snd (diffServices desired current))) \<subseteq> set desired
   \<and> set (fst (snd (diffEndpoints desiredE currentE))) \<subseteq> set desiredE
   \<and> (\<forall>u. Enqueue (UpdateServiceAction u) \<in> set (reconcileSvcs desired current) \<longrightarrow>
          u \<in> set desired)
   \<and> (\<forall>e n. Enqueue (UpdateEndpointsAction e n) \<in> set (reconcileEndpoints desiredE currentE) \<longrightarrow>
          \<lparr>endpoints = e, upstreamName = n\<rparr> \<in> set desiredE)"
proof -
  have s: "set (fst (snd (diffServices desired current))) \<subseteq> set desired"
    by (simp add: diffServices_eq firstMatchUpdates_subset)
  have e: "set (fst (snd (diffEndpoints desiredE currentE))) \<subseteq> set desiredE"
    by (simp add: diffEndpoints_eq firstMatchUpdates_subset)
  from s e show ?thesis
    unfolding reconcileSvcs_update reconcileEndpoints_update by blast
qed

theorem C10_update_is_desired_witness:
  "Enqueue (UpdateServiceAction (svcOf Web8080)) \<in> set (reconcileSvcs [svcOf Web8080] [svcOf web80])
   \<and> svcOf Web8080 \<in> set [svcOf Web8080]
   \<and> svcOf Web8080 \<noteq> svcOf web80"
proof -
  have d: "diffServices [svcOf Web8080] [svcOf web80] = ([], [svcOf Web8080], [])"
    using detail_svcOf
    by (simp add: diffServices_eq firstMatchUpdates_def firstMatch_def ident_svcOf)
  have m: "Enqueue (UpdateServiceAction (svcOf Web8080)) \<in> set (reconcileSvcs [svcOf Web8080] [svcOf web80])"
    by (simp add: reconcileSvcs_def d)
  from C10_update_is_desired [of "[svcOf Web8080]" "[svcOf web80]" "[]" "[]",
        THEN conjunct2, THEN conjunct2, THEN conjunct1, rule_format, OF m]
  have "svcOf Web8080 \<in> set [svcOf Web8080]" .
  moreover from detail_svcOf have "svcOf Web8080 \<noteq> svcOf web80" by auto
  ultimately show ?thesis using m by simp
qed

subsection \<open>The projector\<close>

lemma rangeNodes_started:
  "rangeNodes service nodes [(Name service, \<lparr>Addresses = Some as, NotReadyAddresses = None, es_Ports = Some [p]\<rparr>)] =
     [(Name service, \<lparr>Addresses = Some (as @ map (\<lambda>node. \<lparr>IP = node, Hostname = [], NodeName = None, TargetRef = None\<rparr>) nodes),
                       NotReadyAddresses = None, es_Ports = Some [p]\<rparr>)]"
  by (induction nodes arbitrary: as)
     (simp_all add: index_subsets_def len_slice_def elems_def append_slice_def)

lemma rangeNodes_empty:
  "rangeNodes service nodes [] =
     (if nodes = [] then []
      else [(Name service,
             \<lparr>Addresses = Some (map (\<lambda>node. \<lparr>IP = node, Hostname = [], NodeName = None, TargetRef = None\<rparr>) nodes),
              NotReadyAddresses = None,
              es_Ports = Some [\<lparr>epp_Name = portName (Port service), epp_Port = int32_of (Port service),
                                epp_Protocol = ProtocolTCP\<rparr>]\<rparr>)])"
proof (cases nodes)
  case Nil
  then show ?thesis by simp
next
  case (Cons node rest)
  then show ?thesis
    by (simp add: index_subsets_def zeroEndpointSubset_def len_slice_def elems_def
          append_slice_def rangeNodes_started)
qed

lemma kubeEndpoint_Subsets:
  "Subsets (endpoints (kubeEndpoint ext b ns service)) =
     (if Nodes service = [] then None
      else Some [\<lparr>Addresses = Some (map (\<lambda>node. \<lparr>IP = node, Hostname = [], NodeName = None, TargetRef = None\<rparr>) (Nodes service)),
                 NotReadyAddresses = None,
                 es_Ports = Some [\<lparr>epp_Name = portName (Port service), epp_Port = int32_of (Port service),
                                   epp_Protocol = ProtocolTCP\<rparr>]\<rparr>])"
  by (simp add: kubeEndpoint_def Let_def rangeSubsets_Subsets rangeNodes_empty elems_def)

lemma rangeSubsets_meta: "ep_ObjectMeta (rangeSubsets subsets ep) = ep_ObjectMeta ep"
  by (induction subsets ep rule: rangeSubsets.induct) simp_all

lemma identity_kubeService:
  "identitySvc (kubeService ext b ns service) = (BuildDiscoveredName ext b (ToLower ext (Name service)), ns)"
  by (simp add: identitySvc_def kubeService_def serviceName_def)

lemma identity_kubeEndpoint:
  "identityEp (kubeEndpoint ext b ns service) = (BuildDiscoveredName ext b (ToLower ext (Name service)), ns)"
  by (simp add: identityEp_def kubeEndpoint_def Let_def rangeSubsets_meta serviceName_def)

lemma int32_of_fits:
  "- 2147483648 \<le> x \<Longrightarrow> x < 2147483648 \<Longrightarrow> sint (int32_of x) = x"
proof -
  assume "- 2147483648 \<le> x" "x < 2147483648"
  then have "signed_take_bit 31 x = x"
    by (intro signed_take_bit_int_eq_self) simp_all
  then show ?thesis
    by (simp add: int32_of_def sint_sbintrunc')
qed

lemma buildService_Nodes:
  "Nodes (buildService name servicesData) = map (\<lambda>entry. as_Address (se_Service entry)) servicesData"
  by (simp add: buildService_def rangeServicesData_eq)

text \<open>
  C8. For every backend identifier, namespace and list of Service Models the projector
  gives one Service and one Endpoints per model, and at each position the Service and
  the Endpoints have the same identity: the namespace, and the name derived from the
  backend and the lower-cased service name.
\<close>

theorem C8_pairs_share_identity:
  "length (kubeServices ext backend tenant services) = length services
   \<and> length (kubeEndpoints ext backend tenant services) = length services
   \<and> map identitySvc (kubeServices ext backend tenant services) =
       map identityEp (kubeEndpoints ext backend tenant services)
   \<and> map identitySvc (kubeServices ext backend tenant services) =
       map (\<lambda>service. (BuildDiscoveredName ext backend (ToLower ext (Name service)), tenant))
         services"
  by (simp add: kubeServices_map kubeEndpoints_map comp_def identity_kubeService identity_kubeEndpoint)

text \<open>
  C9. The Endpoints projected from a Service Model with at least one node has exactly one
  subset: all the node addresses in order, and one port descriptor, named after the
  service's port and holding it as an \<open>int32\<close> (the port itself when it fits 32 bits); a
  model without nodes gives no subsets. Built from a health response, the one descriptor
  carries the port of the Service Model whatever the ports of the instances are.
\<close>

theorem C9_single_subset:
  "map (\<lambda>e. Subsets (endpoints e)) (kubeEndpoints ext backend tenant services) =
     map (\<lambda>service.
            if Nodes service = [] then None
            else Some [\<lparr>Addresses = Some (map (\<lambda>node. \<lparr>IP = node, Hostname = [], NodeName = None,
                                                         TargetRef = None\<rparr>) (Nodes service)),
                        NotReadyAddresses = None,
                        es_Ports = Some [\<lparr>epp_Name = portName (Port service),
                                          epp_Port = int32_of (Port service),
                                          epp_Protocol = ProtocolTCP\<rparr>]\<rparr>])
         services
   \<and> Subsets (endpoints (kubeEndpoint ext backend tenant (buildService name servicesData))) =
       (if servicesData = [] then None
        else Some [\<lparr>Addresses = Some (map (\<lambda>entry. \<lparr>IP = as_Address (se_Service entry), Hostname = [],
                                                     NodeName = None, TargetRef = None\<rparr>) servicesData),
                    NotReadyAddresses = None,
                    es_Ports = Some [\<lparr>epp_Name = portName (Port (buildService name servicesData)),
                                      epp_Port = int32_of (Port (buildService name servicesData)),
                                      epp_Protocol = ProtocolTCP\<rparr>]\<rparr>])
   \<and> (- 2147483648 \<le> Port service \<and> Port service < 2147483648 \<longrightarrow>
        sint (int32_of (Port service)) = Port service)"
  by (simp add: kubeEndpoints_map comp_def kubeEndpoint_Subsets int32_of_fits buildService_Nodes)

theorem C9_single_subset_witness:
  "Nodes api443 \<noteq> [] \<and> - 2147483648 \<le> Port api443 \<and> Port api443 < 2147483648 \<and>
   map (\<lambda>e. Subsets (endpoints e)) (kubeEndpoints ext0 ''consul'' ''ns'' [api443, \<lparr>Name = ''idle'', Port = 0, Nodes = []\<rparr>]) =
     [Some [\<lparr>Addresses = Some [\<lparr>IP = ''10.0.0.3'', Hostname = [], NodeName = None, TargetRef = None\<rparr>,
                               \<lparr>IP = ''10.0.0.3'', Hostname = [], NodeName = None, TargetRef = None\<rparr>],
             NotReadyAddresses = None,
             es_Ports = Some [\<lparr>epp_Name = ''port-443'', epp_Port = 443, epp_Protocol = ''TCP''\<rparr>]\<rparr>],
      None] \<and>
   sint (int32_of (Port api443)) = 443"
proof -
  note C9 = C9_single_subset [of ext0 "''consul''" "''ns''"
              "[api443, \<lparr>Name = ''idle'', Port = 0, Nodes = []\<rparr>]" _ _ api443]
  have r: "- 2147483648 \<le> Port api443 \<and> Port api443 < 2147483648"
    by (simp add: api443_def)
  have p: "portName 443 = ''port-443''"
    by (simp add: portName_def Itoa_def decimal.simps digitChar_def)
  from C9 [THEN conjunct2, THEN conjunct2, rule_format, OF r] have "sint (int32_of (Port api443)) = 443"
    by (simp add: api443_def)
  moreover have "map (\<lambda>e. Subsets (endpoints e)) (kubeEndpoints ext0 ''consul'' ''ns'' [api443, \<lparr>Name = ''idle'', Port = 0, Nodes = []\<rparr>]) =
     [Some [\<lparr>Addresses = Some [\<lparr>IP = ''10.0.0.3'', Hostname = [], NodeName = None, TargetRef = None\<rparr>,
                               \<lparr>IP = ''10.0.0.3'', Hostname = [], NodeName = None, TargetRef = None\<rparr>],
             NotReadyAddresses = None,
             es_Ports = Some [\<lparr>epp_Name = ''port-443'', epp_Port = 443, epp_Protocol = ''TCP''\<rparr>]\<rparr>],
      None]"
    unfolding C9 [THEN conjunct1]
    by (simp add: api443_def p int32_of_def ProtocolTCP_def)
  moreover have "Nodes api443 \<noteq> []" by (simp add: api443_def)
  ultimately show ?thesis using r by simp
qed

subsection \<open>The cycle\<close>

lemma contains_iff: "contains s e \<longleftrightarrow> e \<in> set s"
  by (induction s) auto

lemma rangeServices_eq:
  "rangeServices r health services svcs evs =
     (svcs @ concat (map (\<lambda>(name, tags).
          if tagFilter r \<in> set tags
          then (case health name of Inl err \<Rightarrow> [] | Inr servicesData \<Rightarrow> [buildService name servicesData])
          else []) services),
      evs @ concat (map (\<lambda>(name, tags).
          if tagFilter r \<in> set tags
          then (case health name of
                  Inl err \<Rightarrow> [Errorf ''can not get services(%s) from consul, err: %s'' [name, err]]
                | Inr servicesData \<Rightarrow> [])
          else []) services))"
proof (induction services arbitrary: svcs evs)
  case Nil
  then show ?case by simp
next
  case (Cons p services)
  obtain name tags where p: "p = (name, tags)" by (cases p)
  show ?case
  proof (cases "health name")
    case (Inl err)
    with p Cons.IH show ?thesis by (simp add: contains_iff)
  next
    case (Inr sd)
    with p Cons.IH show ?thesis by (simp add: contains_iff)
  qed
qed




lemma reconcile_Inr:
  assumes "CatalogServices resp = Inr services"
  shows "reconcile ext r resp =
           reconcileObserved ext r resp (serviceModels r resp)
             (snd (rangeServices r (HealthService resp) services [] [Info ''reconciling consul services'']))"
  using assms by (simp add: reconcile_def serviceModels_def rangeServices_eq)

lemma reconcileObserved_Some:
  assumes "ListServices resp = (Some sl, errS)" and "ListEndpoints resp = (Some el, errE)"
  shows "reconcileObserved ext r resp svcs evs =
     \<lparr>trace = evs
        @ listFailure ''ListServicesInNamespace'' ''error listing services in namespace %q: %v'' (namespace r) errS
        @ listFailure ''ListEndpointsInNamespace'' ''error listing endpoints in namespace:%q: %v'' (namespace r) errE
        @ reconcileSvcs (kubeServices ext (backendName r) (namespace r) svcs) (sl_Items sl)
        @ reconcileEndpoints (kubeEndpoints ext (backendName r) (namespace r) svcs)
            (map (\<lambda>v. \<lparr>endpoints = v, upstreamName = []\<rparr>) (el_Items el))
        @ [DiscovererUpstreamServicesMetric (namespace r) (int (length svcs)),
           DiscovererInvalidServicesMetric (namespace r) 0,
           CycleDurationMetric],
      outcome = Completed\<rparr>"
  using assms by (simp add: reconcileObserved_def Let_def)

lemma reconcileObserved_outcome:
  "outcome (reconcileObserved ext r resp svcs evs) =
     (if fst (ListServices resp) = None \<or> fst (ListEndpoints resp) = None then Panicked else Completed)"
  by (cases "ListServices resp"; cases "ListEndpoints resp")
     (auto simp: reconcileObserved_def Let_def split: option.splits)



lemma health0_web: "health0 ''web'' = Inr [\<lparr>se_Service = \<lparr>as_Address = ''10.0.0.1'', as_Port = 80\<rparr>\<rparr>]"
  by (simp add: health0_def)

lemma buildService_web:
  "buildService ''web'' [\<lparr>se_Service = \<lparr>as_Address = ''10.0.0.1'', as_Port = 80\<rparr>\<rparr>] = web80"
  by (simp add: buildService_def web80_def)

lemma rangeServices_catalog0:
  "rangeServices r0 health0 catalog0 [] evs = ([web80], evs)"
  by (simp add: catalog0_def r0_def health0_web buildService_web)



subsection \<open>Claims about the cycle\<close>




lemma reconcile_Inl:
  "CatalogServices resp = Inl err \<Longrightarrow>
   reconcile ext r resp =
     \<lparr>trace = [Info ''reconciling consul services'',
               Errorf ''can not get services from consul, err: %s'' [err]],
      outcome = Returned\<rparr>"
  by (simp add: reconcile_def)

lemma reconcile_Completed:
  assumes "outcome (reconcile ext r resp) = Completed"
  obtains services sl errS el errE where
    "CatalogServices resp = Inr services" "ListServices resp = (Some sl, errS)"
    "ListEndpoints resp = (Some el, errE)"
proof (cases "CatalogServices resp")
  case (Inl err)
  with assms show ?thesis by (simp add: reconcile_Inl)
next
  case (Inr services)
  from assms have "fst (ListServices resp) \<noteq> None \<and> fst (ListEndpoints resp) \<noteq> None"
    by (simp add: reconcile_Inr [OF Inr] reconcileObserved_outcome split: if_splits)
  then obtain sl errS el errE where "ListServices resp = (Some sl, errS)"
    "ListEndpoints resp = (Some el, errE)"
    by (cases "ListServices resp"; cases "ListEndpoints resp") auto
  with Inr show ?thesis by (rule that)
qed

text \<open>
  C5. The claim is that the count of invalid or filtered-out services a cycle reports is
  the number of registry services left out in that cycle. The program computes it as
  \<open>totalUpstreamServices - len(svcs)\<close> with \<open>totalUpstreamServices := len(svcs)\<close>: every
  cycle that runs to its end reports the number of Service Models as the total and zero
  as the invalid count.
\<close>

theorem C5_invalid_count_is_zero:
  "outcome (reconcile ext r resp) = Completed \<longrightarrow>
     (\<exists>evs. trace (reconcile ext r resp) =
        evs @ [DiscovererUpstreamServicesMetric (namespace r) (int (length (serviceModels r resp))),
               DiscovererInvalidServicesMetric (namespace r) 0,
               CycleDurationMetric])"
proof
  assume "outcome (reconcile ext r resp) = Completed"
  then obtain services sl errS el errE where c: "CatalogServices resp = Inr services"
    and s: "ListServices resp = (Some sl, errS)" and e: "ListEndpoints resp = (Some el, errE)"
    by (rule reconcile_Completed)
  show "\<exists>evs. trace (reconcile ext r resp) =
        evs @ [DiscovererUpstreamServicesMetric (namespace r) (int (length (serviceModels r resp))),
               DiscovererInvalidServicesMetric (namespace r) 0,
               CycleDurationMetric]"
    unfolding reconcile_Inr [OF c] reconcileObserved_Some [OF s e]
    by (simp del: append_assoc add: append_assoc [symmetric])
qed

theorem C5_invalid_count_is_zero_witness:
  "outcome (reconcile ext0 r0 respQuiet) = Completed \<and>
   CatalogServices respQuiet = Inr catalog0 \<and>
   length catalog0 = 2 \<and>
   length (included r0 respQuiet catalog0) = 1 \<and>
   serviceModels r0 respQuiet = [web80] \<and>
   (\<exists>evs. trace (reconcile ext0 r0 respQuiet) =
      evs @ [DiscovererUpstreamServicesMetric ''ns'' 1,
             DiscovererInvalidServicesMetric ''ns'' 0,
             CycleDurationMetric])"
proof -
  have c: "CatalogServices respQuiet = Inr catalog0"
    and s: "ListServices respQuiet = (Some \<lparr>sl_Items = []\<rparr>, None)"
    and e: "ListEndpoints respQuiet = (Some \<lparr>el_Items = []\<rparr>, None)"
    and h: "HealthService respQuiet = health0"
    by (simp_all add: respQuiet_def)
  have m: "serviceModels r0 respQuiet = [web80]"
    by (simp add: serviceModels_def c h rangeServices_catalog0)
  have o: "outcome (reconcile ext0 r0 respQuiet) = Completed"
    by (simp add: reconcile_Inr [OF c] reconcileObserved_Some [OF s e])
  have n: "namespace r0 = ''ns''" by (simp add: r0_def)
  from C5_invalid_count_is_zero [of ext0 r0 respQuiet, rule_format, OF o]
  have "\<exists>evs. trace (reconcile ext0 r0 respQuiet) =
      evs @ [DiscovererUpstreamServicesMetric ''ns'' 1,
             DiscovererInvalidServicesMetric ''ns'' 0,
             CycleDurationMetric]"
    by (simp add: m n)
  moreover have "length (included r0 respQuiet catalog0) = 1"
    by (simp add: included_def catalog0_def h health0_def r0_def)
  moreover have "length catalog0 = 2" by (simp add: catalog0_def)
  ultimately show ?thesis using o c m by simp
qed


















end
